theory Spec2Isabelle
  imports Main "HOL-Library.Mapping" "HOL-Library.AList_Mapping" "HOL-Library.Sublist"
begin

section \<open>Data model\<close>

text \<open>
  The constant tables of \<^verbatim>\<open>main.js\<close>. \<^verbatim>\<open>EVENT_TYPES\<close> has the two members
  \<^verbatim>\<open>NEW\<close> and \<^verbatim>\<open>UPDATE\<close>. \<^verbatim>\<open>CONTENT_TYPES\<close> has four members whose values are
  four pairwise different display labels (a camera emoji followed by the French word
  for video, a page emoji followed by "Lecture", a question mark emoji followed by
  "Quiz", and "Autre"); the program only ever compares them with \<^verbatim>\<open>===\<close> and
  \<^verbatim>\<open>!==\<close>, so each label is one constructor.
\<close>

datatype event_type = NEW | UPDATE

datatype content_type = VIDEO | TEXT | QUIZ | OTHER

text \<open>
  An item as \<^verbatim>\<open>scrapeContent\<close> pushes it: \<^verbatim>\<open>{ id, title, type, url }\<close>.
\<close>

record item =
  item_id :: string
  item_title :: string
  item_type :: content_type
  item_url :: string

text \<open>
  A value of the database object: \<^verbatim>\<open>{ title, type }\<close>. The database itself is a
  plain object used as a dictionary from item ids to such values; the mapping holds its
  own properties, which are what \<^verbatim>\<open>Object.keys\<close> counts, what \<^verbatim>\<open>JSON.stringify\<close> writes
  and what \<^verbatim>\<open>JSON.parse\<close> creates.
\<close>

record stored =
  stored_title :: string
  stored_type :: content_type

type_synonym database = "(string, stored) mapping"

text \<open>
  The properties every plain object inherits from \<^verbatim>\<open>Object.prototype\<close>. All of them
  are functions, except \<^verbatim>\<open>__proto__\<close>, an accessor whose getter returns the prototype
  object and whose setter replaces it.
\<close>

definition Object_prototype :: "string list" where
  "Object_prototype =
     [''constructor'', ''__defineGetter__'', ''__defineSetter__'', ''hasOwnProperty'',
      ''__lookupGetter__'', ''__lookupSetter__'', ''isPrototypeOf'', ''propertyIsEnumerable'',
      ''toString'', ''valueOf'', ''__proto__'', ''toLocaleString'']"

text \<open>
  \<^verbatim>\<open>database[key]\<close>: the own property if there is one, else the inherited one, else
  \<^verbatim>\<open>undefined\<close>. An own value is an object and an inherited one a function or an
  object, so both are truthy; only an own value has a \<^verbatim>\<open>type\<close>.
\<close>

datatype property = Undefined | Inherited | Own stored

definition get_property :: "database \<Rightarrow> string \<Rightarrow> property" where
  "get_property db k =
     (case Mapping.lookup db k of
        Some st \<Rightarrow> Own st
      | None \<Rightarrow> if k \<in> set Object_prototype then Inherited else Undefined)"

definition property_type :: "property \<Rightarrow> content_type option" where
  "property_type p = (case p of Own st \<Rightarrow> Some (stored_type st) | _ \<Rightarrow> None)"

text \<open>
  \<^verbatim>\<open>database[key] = value\<close> on an object that \<^verbatim>\<open>updateDatabase\<close> builds from
  \<^verbatim>\<open>{}\<close>: every key becomes an own property, except \<^verbatim>\<open>__proto__\<close>, for which the
  inherited setter runs and no own property is added.
\<close>

definition set_property :: "database \<Rightarrow> string \<Rightarrow> stored \<Rightarrow> database" where
  "set_property db k v = (if k = ''__proto__'' then db else Mapping.update k v db)"

text \<open>An element of the \<^verbatim>\<open>actions\<close> array: \<^verbatim>\<open>{ type, data }\<close>.\<close>

record action =
  action_type :: event_type
  action_data :: item

section \<open>ChangeDetector\<close>

text \<open>
  One turn of the \<^verbatim>\<open>for (const item of currentItems)\<close> loop of
  \<^verbatim>\<open>detectChanges\<close>, with \<^verbatim>\<open>actions.push\<close> as appending to the accumulator.
\<close>

definition detect_item :: "database \<Rightarrow> item \<Rightarrow> action list \<Rightarrow> action list" where
  "detect_item db it actions =
     (let stored = get_property db (item_id it)
      in if stored = Undefined then actions @ [\<lparr>action_type = NEW, action_data = it\<rparr>]
         else if property_type stored \<noteq> Some (item_type it)
                 \<and> property_type stored = Some TEXT \<and> item_type it = VIDEO
         then actions @ [\<lparr>action_type = UPDATE, action_data = it\<rparr>]
         else actions)"

definition detectChanges :: "item list \<Rightarrow> database \<Rightarrow> action list" where
  "detectChanges currentItems db = fold (detect_item db) currentItems []"

text \<open>
  \<^verbatim>\<open>updateDatabase\<close>: starts from a fresh empty object and assigns
  \<^verbatim>\<open>database[item.id] = { title, type }\<close> for every item in turn.
\<close>

definition project :: "item \<Rightarrow> stored" where
  "project it = \<lparr>stored_title = item_title it, stored_type = item_type it\<rparr>"

definition updateDatabase :: "item list \<Rightarrow> database" where
  "updateDatabase items =
     fold (\<lambda>it db. set_property db (item_id it) (project it)) items Mapping.empty"

section \<open>Strings\<close>

text \<open>
  Strings are sequences of code units below 256. \<^verbatim>\<open>\d\<close> is an ASCII digit;
  \<^verbatim>\<open>String.prototype.trim\<close> strips the white space of ECMAScript, of which tab, line
  feed, vertical tab, form feed, carriage return, space and no-break space lie in that
  range.
\<close>

definition is_digit :: "char \<Rightarrow> bool" where
  "is_digit c = (c \<in> set ''0123456789'')"

definition is_space :: "char \<Rightarrow> bool" where
  "is_space c = (c \<in> set [CHR 0x09, CHR 0x0A, CHR 0x0B, CHR 0x0C, CHR 0x0D, CHR 0x20, CHR 0xA0])"

definition trim :: "string \<Rightarrow> string" where
  "trim s = rev (dropWhile is_space (rev (dropWhile is_space s)))"

text \<open>\<^verbatim>\<open>s.includes(sub)\<close>: \<^verbatim>\<open>sub\<close> occurs in \<^verbatim>\<open>s\<close> at some position.\<close>

fun str_includes :: "string \<Rightarrow> string \<Rightarrow> bool" where
  "str_includes [] sub = (sub = [])"
| "str_includes (c # cs) sub = (prefix sub (c # cs) \<or> str_includes cs sub)"

text \<open>
  \<^verbatim>\<open>href.match(/\/(\d+)/)\<close>: the leftmost slash that is followed by a digit; the
  capture group is the longest run of digits after it. \<^verbatim>\<open>None\<close> is \<^verbatim>\<open>null\<close>.
\<close>

fun match_id :: "string \<Rightarrow> string option" where
  "match_id [] = None"
| "match_id (c # cs) =
     (if c = CHR ''/'' \<and> takeWhile is_digit cs \<noteq> [] then Some (takeWhile is_digit cs)
      else match_id cs)"

section \<open>Errors and the environment of a cycle\<close>

text \<open>Everything the program throws, by the place that throws it.\<close>

datatype error =
    LaunchError
  | LoginError
  | MenuError
  | DriverError
  | NotificationError
  | ReadError
  | ParseError
  | WriteError

text \<open>
  A \<^verbatim>\<open>.course-player__content-item__link\<close> element as \<^verbatim>\<open>scrapeContent\<close> reads
  it: its \<^verbatim>\<open>href\<close> attribute (\<^verbatim>\<open>None\<close> when the attribute is missing), the text of
  its title elements once their child elements are removed, and the text of its details
  elements.
\<close>

record node =
  node_href :: "string option"
  node_own_text :: string
  node_details :: string

text \<open>
  What the browser shows at an item's page. A \<^verbatim>\<open>script[type="application/ld+json"]\<close>
  element either makes the body of the inner \<^verbatim>\<open>try\<close> throw (\<^verbatim>\<open>JSON.parse\<close> fails, or
  yields \<^verbatim>\<open>null\<close>), or yields data whose \<^verbatim>\<open>thumbnailUrl\<close> is undefined (\<^verbatim>\<open>None\<close>) or
  a string. \<^verbatim>\<open>frame.evaluate\<close> may reject (\<^verbatim>\<open>FrameError\<close>), and so may \<^verbatim>\<open>page.goto\<close>.
\<close>

datatype script = InvalidJSON | LdJson "string option"

datatype frame = FrameError | Frame "script list"

datatype navigation = NavigationError | Loaded "frame list"

text \<open>
  The content object \<^verbatim>\<open>send\<close> receives: the item, to which \<^verbatim>\<open>processActions\<close> has
  added \<^verbatim>\<open>image\<close>.
\<close>

record content = item +
  image :: string

text \<open>
  The embed posted to the webhook. Its title and description are fixed texts chosen by
  the event type, with the content's title inserted; its footer and user name are
  constants. The record keeps what varies.
\<close>

record embed =
  embed_event :: event_type
  embed_title :: string
  embed_url :: string
  embed_color :: int
  embed_image :: string
  embed_format :: content_type

text \<open>
  \<^verbatim>\<open>database.json\<close> on disk: absent, present but \<^verbatim>\<open>readFile\<close> rejects, present
  but not JSON, or the JSON of a database object.
\<close>

datatype json_file = Missing | Unreadable | Unparseable | Stored database

text \<open>
  What a cycle meets outside the program: whether \<^verbatim>\<open>puppeteer.launch\<close> and
  \<^verbatim>\<open>newPage\<close> succeed, whether \<^verbatim>\<open>ensureAuthenticated\<close> returns, whether the course
  menu appears before the time-out and which link nodes the page has, what the browser
  shows at each URL, whether the webhook answers a post with a 2xx status (given the
  posts made before it), and whether writing the database succeeds (\<^verbatim>\<open>None\<close>) or fails
  and leaves some file behind. \<^verbatim>\<open>base_url\<close> and \<^verbatim>\<open>default_thumbnail\<close> are
  \<^verbatim>\<open>CONFIG.COURSE_BASE_URL\<close> and \<^verbatim>\<open>CONFIG.DEFAULT_THUMBNAIL\<close>.
\<close>

record env =
  base_url :: string
  default_thumbnail :: string
  launch_ok :: bool
  auth_ok :: bool
  selector_found :: bool
  nodes :: "node list"
  goto :: "string \<Rightarrow> navigation"
  sink :: "embed list \<Rightarrow> embed \<Rightarrow> bool"
  disk :: "database \<Rightarrow> json_file option"

text \<open>
  What a cycle changes: the database file, and the requests made to the webhook so far,
  oldest first.
\<close>

record world =
  db_file :: json_file
  posts :: "embed list"

section \<open>Utility functions\<close>

text \<open>
  \<^verbatim>\<open>readJSON\<close>: the body of its \<^verbatim>\<open>try\<close>, then the \<^verbatim>\<open>catch\<close> that logs a warning
  and returns \<^verbatim>\<open>{}\<close>.
\<close>

definition readJSON_try :: "json_file \<Rightarrow> error + database" where
  "readJSON_try f =
     (case f of
        Missing \<Rightarrow> Inr Mapping.empty
      | Unreadable \<Rightarrow> Inl ReadError
      | Unparseable \<Rightarrow> Inl ParseError
      | Stored db \<Rightarrow> Inr db)"

definition readJSON :: "json_file \<Rightarrow> error + database" where
  "readJSON f = (case readJSON_try f of Inl e \<Rightarrow> Inr Mapping.empty | Inr db \<Rightarrow> Inr db)"

text \<open>\<^verbatim>\<open>writeJSON\<close>: the \<^verbatim>\<open>catch\<close> logs and throws the error again.\<close>

definition writeJSON :: "env \<Rightarrow> json_file \<Rightarrow> database \<Rightarrow> (error + unit) \<times> json_file" where
  "writeJSON e f data =
     (case disk e data of
        None \<Rightarrow> (Inr (), Stored data)
      | Some f' \<Rightarrow> (Inl WriteError, f'))"

section \<open>ContentScraper\<close>

definition identifyContentType :: "string \<Rightarrow> string \<Rightarrow> content_type" where
  "identifyContentType details url =
     (if str_includes details ''Video'' \<or> str_includes url ''/lessons/'' then VIDEO
      else if str_includes details ''Text'' \<or> str_includes url ''/texts/'' then TEXT
      else if str_includes details ''Quiz'' \<or> str_includes url ''/quizzes/'' then QUIZ
      else OTHER)"

text \<open>The callback given to \<^verbatim>\<open>frame.evaluate\<close>.\<close>

fun scan_scripts :: "script list \<Rightarrow> string option" where
  "scan_scripts [] = None"
| "scan_scripts (InvalidJSON # ss) = scan_scripts ss"
| "scan_scripts (LdJson None # ss) = scan_scripts ss"
| "scan_scripts (LdJson (Some u) # ss) = (if u \<noteq> [] then Some u else scan_scripts ss)"

text \<open>The loop over \<^verbatim>\<open>page.frames()\<close>; \<^verbatim>\<open>if (thumbnailUrl)\<close> tests for truthiness.\<close>

fun scan_frames :: "frame list \<Rightarrow> error + string option" where
  "scan_frames [] = Inr None"
| "scan_frames (FrameError # fs) = Inl DriverError"
| "scan_frames (Frame ss # fs) =
     (case scan_scripts ss of
        Some u \<Rightarrow> if u \<noteq> [] then Inr (Some u) else scan_frames fs
      | None \<Rightarrow> scan_frames fs)"

definition extractThumbnail_try :: "env \<Rightarrow> string \<Rightarrow> error + string option" where
  "extractThumbnail_try e url =
     (case goto e url of
        NavigationError \<Rightarrow> Inl DriverError
      | Loaded fs \<Rightarrow> scan_frames fs)"

definition extractThumbnail :: "env \<Rightarrow> string \<Rightarrow> error + string option" where
  "extractThumbnail e url =
     (case extractThumbnail_try e url of Inl err \<Rightarrow> Inr None | Inr r \<Rightarrow> Inr r)"

text \<open>
  The callback of \<^verbatim>\<open>$(SELECTORS.COURSE_ITEM).each\<close>; \<^verbatim>\<open>href ? ... : null\<close> treats a
  missing and an empty \<^verbatim>\<open>href\<close> alike, and \<^verbatim>\<open>|| 'Unknown Title'\<close> replaces the empty
  string.
\<close>

definition scrape_node :: "env \<Rightarrow> node \<Rightarrow> item list \<Rightarrow> item list" where
  "scrape_node e n items =
     (case node_href n of
        None \<Rightarrow> items
      | Some href \<Rightarrow>
          (case (if href \<noteq> [] then match_id href else None) of
             None \<Rightarrow> items
           | Some i \<Rightarrow>
               items @
               [\<lparr>item_id = i,
                 item_title = (if trim (node_own_text n) \<noteq> [] then trim (node_own_text n)
                               else ''Unknown Title''),
                 item_type = identifyContentType (node_details n) href,
                 item_url = base_url e @ href\<rparr>]))"

definition scrapeContent :: "env \<Rightarrow> error + item list" where
  "scrapeContent e =
     (if \<not> selector_found e then Inl MenuError
      else Inr (fold (scrape_node e) (nodes e) []))"

section \<open>NotificationService\<close>

definition EMBED_COLORS :: "event_type \<Rightarrow> int" where
  "EMBED_COLORS t = (case t of NEW \<Rightarrow> 5763719 | UPDATE \<Rightarrow> 16776960)"

definition build_embed :: "env \<Rightarrow> content \<Rightarrow> event_type \<Rightarrow> embed" where
  "build_embed e c eventType =
     \<lparr>embed_event = eventType,
       embed_title = item_title c,
       embed_url = item_url c,
       embed_color = EMBED_COLORS eventType,
       embed_image = (if image c \<noteq> [] then image c else default_thumbnail e),
       embed_format = item_type c\<rparr>"

text \<open>
  \<^verbatim>\<open>send\<close>: one request to the webhook; anything but a 2xx answer throws, and the
  \<^verbatim>\<open>catch\<close> logs and throws again.
\<close>

definition send :: "env \<Rightarrow> content \<Rightarrow> event_type \<Rightarrow> embed list \<Rightarrow> (error + unit) \<times> embed list" where
  "send e c eventType ps =
     (let em = build_embed e c eventType
      in if sink e ps em then (Inr (), ps @ [em]) else (Inl NotificationError, ps @ [em]))"

section \<open>CourseMonitor\<close>

text \<open>
  The item of an action with the \<^verbatim>\<open>image\<close> property \<^verbatim>\<open>processActions\<close> gives it. The
  assignment changes the object that \<^verbatim>\<open>currentItems\<close> holds too; \<^verbatim>\<open>updateDatabase\<close>
  reads \<^verbatim>\<open>title\<close> and \<^verbatim>\<open>type\<close> only, so the model keeps the items as they were.
\<close>

definition with_image :: "item \<Rightarrow> string \<Rightarrow> content" where
  "with_image it img =
     \<lparr>item_id = item_id it, item_title = item_title it, item_type = item_type it,
       item_url = item_url it, image = img\<rparr>"

definition prepare :: "env \<Rightarrow> action \<Rightarrow> error + content" where
  "prepare e a =
     (if item_type (action_data a) = VIDEO then
        (case extractThumbnail e (item_url (action_data a)) of
           Inl err \<Rightarrow> Inl err
         | Inr thumbnail \<Rightarrow>
             (case thumbnail of
                None \<Rightarrow> Inr (with_image (action_data a) (default_thumbnail e))
              | Some u \<Rightarrow>
                  if u \<noteq> [] then Inr (with_image (action_data a) u)
                  else Inr (with_image (action_data a) (default_thumbnail e))))
      else Inr (with_image (action_data a) (default_thumbnail e)))"

fun processActions :: "env \<Rightarrow> action list \<Rightarrow> embed list \<Rightarrow> (error + unit) \<times> embed list" where
  "processActions e [] ps = (Inr (), ps)"
| "processActions e (a # as) ps =
     (case prepare e a of
        Inl err \<Rightarrow> (Inl err, ps)
      | Inr c \<Rightarrow>
          (case send e c (action_type a) ps of
             (Inl err, ps') \<Rightarrow> (Inl err, ps')
           | (Inr u, ps') \<Rightarrow> processActions e as ps'))"

text \<open>
  \<^verbatim>\<open>check\<close>: the body of its \<^verbatim>\<open>try\<close>, with the error it ends on if any, then the
  \<^verbatim>\<open>catch\<close> that logs the error. Logging in, which may also write the cookie file, is
  the outcome \<^verbatim>\<open>auth_ok\<close>.
\<close>

definition check_try :: "env \<Rightarrow> world \<Rightarrow> (error + unit) \<times> world" where
  "check_try e w =
     (if \<not> launch_ok e then (Inl LaunchError, w)
      else if \<not> auth_ok e then (Inl LoginError, w)
      else
        (case scrapeContent e of
           Inl err \<Rightarrow> (Inl err, w)
         | Inr currentItems \<Rightarrow>
             (case readJSON (db_file w) of
                Inl err \<Rightarrow> (Inl err, w)
              | Inr db \<Rightarrow>
                  (let isFirstRun = Mapping.is_empty db;
                       actions = detectChanges currentItems db
                   in if length actions > 0 then
                        (case (if isFirstRun then (Inr (), posts w)
                               else processActions e actions (posts w)) of
                           (Inl err, ps) \<Rightarrow> (Inl err, w\<lparr>posts := ps\<rparr>)
                         | (Inr u, ps) \<Rightarrow>
                             (case writeJSON e (db_file w) (updateDatabase currentItems) of
                                (r, f) \<Rightarrow> (r, \<lparr>db_file = f, posts = ps\<rparr>)))
                      else (Inr (), w)))))"

definition check :: "env \<Rightarrow> world \<Rightarrow> world" where
  "check e w = snd (check_try e w)"

section \<open>Notions the properties are stated with\<close>

text \<open>The events one item gives rise to, independently of the accumulator.\<close>

definition events_of :: "database \<Rightarrow> item \<Rightarrow> action list" where
  "events_of db it = detect_item db it []"

text \<open>
  The ids \<^verbatim>\<open>scrapeContent\<close> produces: non-empty runs of digits.
\<close>

definition digit_id :: "string \<Rightarrow> bool" where
  "digit_id k = (k \<noteq> [] \<and> list_all is_digit k)"

text \<open>
  Every truthy \<^verbatim>\<open>thumbnailUrl\<close> of a page, in document order: frame by frame, and
  script by script inside a frame.
\<close>

definition script_thumbnails :: "script list \<Rightarrow> string list" where
  "script_thumbnails ss =
     concat (map (\<lambda>s. case s of LdJson (Some u) \<Rightarrow> (if u \<noteq> [] then [u] else []) | _ \<Rightarrow> []) ss)"

definition page_thumbnails :: "frame list \<Rightarrow> string list" where
  "page_thumbnails fs =
     concat (map (\<lambda>f. case f of Frame ss \<Rightarrow> script_thumbnails ss | FrameError \<Rightarrow> []) fs)"

text \<open>The embed that is posted for an action.\<close>

definition alert :: "env \<Rightarrow> action \<Rightarrow> embed" where
  "alert e a =
     build_embed e
       (with_image (action_data a)
          (if item_type (action_data a) = VIDEO then
             (case extractThumbnail e (item_url (action_data a)) of
                Inr (Some u) \<Rightarrow> u
              | _ \<Rightarrow> default_thumbnail e)
           else default_thumbnail e))
       (action_type a)"

text \<open>The database a later cycle reads from a file.\<close>

definition catalog :: "json_file \<Rightarrow> database" where
  "catalog f = (case readJSON f of Inr db \<Rightarrow> db | Inl e \<Rightarrow> Mapping.empty)"

section \<open>Example inputs\<close>

text \<open>
  The scenario of the specification: the database holds item 1 with title A as a text;
  the page now lists it as a video, as a quiz, or as a text under another title.
\<close>

definition catalog1 :: database where
  "catalog1 = Mapping.update ''1'' \<lparr>stored_title = ''A'', stored_type = TEXT\<rparr> Mapping.empty"

definition video1 :: item where
  "video1 = \<lparr>item_id = ''1'', item_title = ''A'', item_type = VIDEO,
              item_url = ''https://school.example/lessons/1''\<rparr>"

definition quiz1 :: item where
  "quiz1 = \<lparr>item_id = ''1'', item_title = ''A'', item_type = QUIZ,
             item_url = ''https://school.example/quizzes/1''\<rparr>"

definition text1 :: item where
  "text1 = \<lparr>item_id = ''1'', item_title = ''B'', item_type = TEXT,
             item_url = ''https://school.example/texts/1''\<rparr>"

definition text2 :: item where
  "text2 = \<lparr>item_id = ''2'', item_title = ''C'', item_type = TEXT,
             item_url = ''https://school.example/texts/2''\<rparr>"

text \<open>
  A course page with a video lesson, a section header whose link has no id, a text
  without a title and a quiz. The lesson's page carries a thumbnail in its second frame;
  no other page loads. The webhook rejects the second request it receives.
\<close>

definition lesson_node :: node where
  "lesson_node = \<lparr>node_href = Some ''/lessons/1'', node_own_text = '' A '', node_details = ''Video''\<rparr>"

definition header_node :: node where
  "header_node = \<lparr>node_href = Some ''#chapter-one'', node_own_text = ''Chapter'', node_details = []\<rparr>"

definition untitled_node :: node where
  "untitled_node = \<lparr>node_href = Some ''/texts/2'', node_own_text = '' '', node_details = ''Text''\<rparr>"

definition quiz_node :: node where
  "quiz_node = \<lparr>node_href = Some ''/quizzes/3'', node_own_text = ''Q'', node_details = ''Quiz''\<rparr>"

definition lesson_frames :: "frame list" where
  "lesson_frames =
     [Frame [InvalidJSON, LdJson None],
      Frame [LdJson (Some []), LdJson (Some ''https://img.example/1.png''),
             LdJson (Some ''https://img.example/2.png'')]]"

definition school :: env where
  "school =
     \<lparr>base_url = ''https://school.example'',
       default_thumbnail = ''https://school.example/default.png'',
       launch_ok = True,
       auth_ok = True,
       selector_found = True,
       nodes = [lesson_node, header_node, untitled_node, quiz_node],
       goto = (\<lambda>u. if u = ''https://school.example/lessons/1'' then Loaded lesson_frames
                    else NavigationError),
       sink = (\<lambda>ps em. length ps \<noteq> 1),
       disk = (\<lambda>db. None)\<rparr>"

definition untitled2 :: item where
  "untitled2 = \<lparr>item_id = ''2'', item_title = ''Unknown Title'', item_type = TEXT,
                 item_url = ''https://school.example/texts/2''\<rparr>"

definition quiz3 :: item where
  "quiz3 = \<lparr>item_id = ''3'', item_title = ''Q'', item_type = QUIZ,
             item_url = ''https://school.example/quizzes/3''\<rparr>"

definition school_items :: "item list" where
  "school_items = [video1, untitled2, quiz3]"

text \<open>The same school with a webhook that accepts every request.\<close>

definition calm_school :: env where
  "calm_school = school\<lparr>sink := (\<lambda>ps em. True)\<rparr>"

text \<open>A page that lists item 1 alone, as a text with the new title B.\<close>

definition renamed_school :: env where
  "renamed_school =
     calm_school\<lparr>nodes := [\<lparr>node_href = Some ''/texts/1'', node_own_text = ''B'',
                              node_details = ''Text''\<rparr>]\<rparr>"

text \<open>A disk on which every write fails and leaves a truncated file.\<close>

definition full_disk_school :: env where
  "full_disk_school = calm_school\<lparr>disk := (\<lambda>db. Some Unparseable)\<rparr>"

text \<open>
  A browser in which the evaluation of the first frame of every page is rejected, the
  second frame holding a thumbnail.
\<close>

definition broken_frames :: "frame list" where
  "broken_frames = [FrameError, Frame [LdJson (Some ''https://img.example/1.png'')]]"

definition flaky_school :: env where
  "flaky_school = school\<lparr>goto := (\<lambda>u. Loaded broken_frames)\<rparr>"

text \<open>The state before a first run, and the state in which item 1 is known as a text.\<close>

definition fresh_world :: world where
  "fresh_world = \<lparr>db_file = Missing, posts = []\<rparr>"

definition known_world :: world where
  "known_world = \<lparr>db_file = Stored catalog1, posts = []\<rparr>"

section \<open>Properties of the change detector\<close>

lemma digit_id_not_inherited: "digit_id k \<Longrightarrow> k \<notin> set Object_prototype"
  by (cases k) (auto simp: digit_id_def Object_prototype_def is_digit_def)

lemma digit_id_not_proto: "digit_id k \<Longrightarrow> k \<noteq> ''__proto__''"
  by (cases k) (auto simp: digit_id_def is_digit_def)

lemma detect_item_acc: "detect_item db it acc = acc @ events_of db it"
  by (simp add: detect_item_def events_of_def Let_def)

lemma fold_detect_item:
  "fold (detect_item db) its acc = acc @ concat (map (events_of db) its)"
proof (induction its arbitrary: acc)
  case Nil
  show ?case by simp
next
  case (Cons a its)
  have "fold (detect_item db) (a # its) acc = fold (detect_item db) its (acc @ events_of db a)"
    by (simp add: detect_item_acc)
  also have "\<dots> = (acc @ events_of db a) @ concat (map (events_of db) its)"
    by (rule Cons.IH)
  finally show ?case by simp
qed

lemma detectChanges_concat:
  "detectChanges its db = concat (map (events_of db) its)"
  by (simp add: detectChanges_def fold_detect_item)

lemma detectChanges_Nil: "detectChanges [] db = []"
  by (simp add: detectChanges_def)

lemma detectChanges_Cons:
  "detectChanges (it # its) db = events_of db it @ detectChanges its db"
  by (simp add: detectChanges_concat)

lemma set_detectChanges:
  "set (detectChanges its db) = (\<Union>it\<in>set its. set (events_of db it))"
  by (simp add: detectChanges_concat)

lemma events_of_cases:
  "events_of db it =
     (case Mapping.lookup db (item_id it) of
        None \<Rightarrow> if item_id it \<in> set Object_prototype then []
                else [\<lparr>action_type = NEW, action_data = it\<rparr>]
      | Some st \<Rightarrow> if stored_type st = TEXT \<and> item_type it = VIDEO
                   then [\<lparr>action_type = UPDATE, action_data = it\<rparr>] else [])"
  by (auto simp: events_of_def detect_item_def get_property_def property_type_def Let_def
           split: option.split)

lemma events_of_data: "a \<in> set (events_of db it) \<Longrightarrow> action_data a = it"
  by (auto simp: events_of_cases split: option.splits if_splits)

lemma update_in_events_of:
  "\<lparr>action_type = UPDATE, action_data = it\<rparr> \<in> set (events_of db it') \<longleftrightarrow>
     it' = it \<and> (\<exists>st. Mapping.lookup db (item_id it) = Some st \<and> stored_type st = TEXT \<and> item_type it = VIDEO)"
  by (auto simp: events_of_cases split: option.splits if_splits)

lemma events_of_empty:
  "digit_id (item_id it) \<Longrightarrow> events_of Mapping.empty it = [\<lparr>action_type = NEW, action_data = it\<rparr>]"
  by (simp add: events_of_cases digit_id_not_inherited)

lemma detectChanges_empty:
  "\<forall>it \<in> set its. digit_id (item_id it) \<Longrightarrow>
   detectChanges its Mapping.empty = map (\<lambda>it. \<lparr>action_type = NEW, action_data = it\<rparr>) its"
  by (induction its) (simp_all add: detectChanges_Nil detectChanges_Cons events_of_empty)

lemma lookup_catalog1: "Mapping.lookup catalog1 ''1'' = Some \<lparr>stored_title = ''A'', stored_type = TEXT\<rparr>"
  by (simp add: catalog1_def)

text \<open>
  Claim C1. \<^verbatim>\<open>detectChanges\<close> emits an \<^verbatim>\<open>UPDATE\<close> event for an item exactly when the
  item is in the list, its id is a key of the database, the stored type is the text
  label and the current type is the video label. For every other pair of different
  stored and current types, no event carries that item.
\<close>

theorem detectChanges_upgrade_only:
  "(\<lparr>action_type = UPDATE, action_data = it\<rparr> \<in> set (detectChanges its db) \<longleftrightarrow>
      it \<in> set its \<and>
      (\<exists>st. Mapping.lookup db (item_id it) = Some st \<and> stored_type st = TEXT \<and> item_type it = VIDEO))
   \<and> (\<forall>st. Mapping.lookup db (item_id it) = Some st \<and> stored_type st \<noteq> item_type it
           \<and> \<not> (stored_type st = TEXT \<and> item_type it = VIDEO)
         \<longrightarrow> (\<forall>a \<in> set (detectChanges its db). action_data a \<noteq> it))"
proof (intro conjI allI impI)
  show "\<lparr>action_type = UPDATE, action_data = it\<rparr> \<in> set (detectChanges its db) \<longleftrightarrow>
      it \<in> set its \<and>
      (\<exists>st. Mapping.lookup db (item_id it) = Some st \<and> stored_type st = TEXT \<and> item_type it = VIDEO)"
    unfolding set_detectChanges by (auto simp: update_in_events_of)
next
  fix st
  assume h: "Mapping.lookup db (item_id it) = Some st \<and> stored_type st \<noteq> item_type it
           \<and> \<not> (stored_type st = TEXT \<and> item_type it = VIDEO)"
  then have "events_of db it = []" by (simp add: events_of_cases)
  then show "\<forall>a \<in> set (detectChanges its db). action_data a \<noteq> it"
    unfolding set_detectChanges using events_of_data by fastforce
qed

theorem detectChanges_upgrade_only_witness:
  "\<lparr>action_type = UPDATE, action_data = video1\<rparr> \<in> set (detectChanges [video1] catalog1)
   \<and> Mapping.lookup catalog1 (item_id quiz1) = Some \<lparr>stored_title = ''A'', stored_type = TEXT\<rparr>
   \<and> item_type quiz1 = QUIZ
   \<and> quiz1 \<notin> action_data ` set (detectChanges [quiz1] catalog1)"
proof (intro conjI)
  show "\<lparr>action_type = UPDATE, action_data = video1\<rparr> \<in> set (detectChanges [video1] catalog1)"
    using detectChanges_upgrade_only [of video1 "[video1]" catalog1]
    by (simp add: lookup_catalog1 video1_def)
  show "Mapping.lookup catalog1 (item_id quiz1) = Some \<lparr>stored_title = ''A'', stored_type = TEXT\<rparr>"
    by (simp add: lookup_catalog1 quiz1_def)
  show "item_type quiz1 = QUIZ"
    by (simp add: quiz1_def)
  show "quiz1 \<notin> action_data ` set (detectChanges [quiz1] catalog1)"
    using detectChanges_upgrade_only [of quiz1 "[quiz1]" catalog1]
    by (auto simp: lookup_catalog1 quiz1_def)
qed

text \<open>
  Claim C2. For every list of items with the ids \<^verbatim>\<open>scrapeContent\<close> produces (runs of
  digits), \<^verbatim>\<open>detectChanges\<close> against the empty database yields exactly one \<^verbatim>\<open>NEW\<close>
  event per item, in the order of the list. For every list and every database, the
  items of the events are the items of the list that give rise to an event, in the
  order of the list: nothing is reordered, sorted or grouped.
\<close>

theorem detectChanges_order:
  "((\<forall>it \<in> set its. digit_id (item_id it)) \<longrightarrow>
      detectChanges its Mapping.empty = map (\<lambda>it. \<lparr>action_type = NEW, action_data = it\<rparr>) its)
   \<and> subseq (map action_data (detectChanges its db)) its
   \<and> map action_data (detectChanges its db) = filter (\<lambda>it. events_of db it \<noteq> []) its"
proof (intro conjI impI)
  assume "\<forall>it \<in> set its. digit_id (item_id it)"
  then show "detectChanges its Mapping.empty = map (\<lambda>it. \<lparr>action_type = NEW, action_data = it\<rparr>) its"
    by (rule detectChanges_empty)
next
  show f: "map action_data (detectChanges its db) = filter (\<lambda>it. events_of db it \<noteq> []) its"
    by (induction its) (simp_all add: detectChanges_Nil detectChanges_Cons events_of_cases split: option.split)
  show "subseq (map action_data (detectChanges its db)) its"
    unfolding f by simp
qed

theorem detectChanges_order_witness:
  "digit_id (item_id video1) \<and> digit_id (item_id text2)
   \<and> detectChanges [video1, text2] Mapping.empty =
       [\<lparr>action_type = NEW, action_data = video1\<rparr>, \<lparr>action_type = NEW, action_data = text2\<rparr>]"
proof -
  have d: "digit_id (item_id video1)" "digit_id (item_id text2)"
    by (simp_all add: digit_id_def is_digit_def video1_def text2_def)
  with detectChanges_order [of "[video1, text2]" Mapping.empty]
  show ?thesis by simp
qed

text \<open>
  Claim C10. An item whose id is a key of the database with a stored type equal to its
  current type gets no event, whatever the stored and the current title are.
\<close>

theorem detectChanges_same_kind_silent:
  "it \<in> set its \<Longrightarrow> Mapping.lookup db (item_id it) = Some st \<Longrightarrow> stored_type st = item_type it
   \<Longrightarrow> \<forall>a \<in> set (detectChanges its db). action_data a \<noteq> it"
proof -
  assume "it \<in> set its" and l: "Mapping.lookup db (item_id it) = Some st" and k: "stored_type st = item_type it"
  from l k have "events_of db it = []" by (auto simp: events_of_cases)
  then show ?thesis unfolding set_detectChanges using events_of_data by fastforce
qed

theorem detectChanges_same_kind_silent_witness:
  "stored_title \<lparr>stored_title = ''A'', stored_type = TEXT\<rparr> \<noteq> item_title text1
   \<and> Mapping.lookup catalog1 (item_id text1) = Some \<lparr>stored_title = ''A'', stored_type = TEXT\<rparr>
   \<and> text1 \<notin> action_data ` set (detectChanges [text1, text2] catalog1)"
  using detectChanges_same_kind_silent
          [of text1 "[text1, text2]" catalog1 "\<lparr>stored_title = ''A'', stored_type = TEXT\<rparr>"]
  by (auto simp: lookup_catalog1 text1_def)

lemma fold_set_property_keys:
  "Mapping.keys (fold (\<lambda>it db. set_property db (item_id it) (project it)) its m)
     = Mapping.keys m \<union> (item_id ` set its - {''__proto__''})"
  by (induction its arbitrary: m) (auto simp: set_property_def)

lemma keys_updateDatabase:
  "\<forall>it \<in> set its. digit_id (item_id it) \<Longrightarrow> Mapping.keys (updateDatabase its) = item_id ` set its"
  by (auto simp: updateDatabase_def fold_set_property_keys dest: digit_id_not_proto)









text \<open>
  Outside the ids of the scraper the code behaves differently: an id that names an
  inherited property is not reported as new, and the id \<^verbatim>\<open>__proto__\<close> is not stored.
\<close>

lemma detectChanges_inherited_id:
  "detectChanges [\<lparr>item_id = ''constructor'', item_title = t, item_type = k, item_url = u\<rparr>]
     Mapping.empty = []"
  by (simp add: detectChanges_Cons detectChanges_Nil events_of_cases Object_prototype_def)

lemma updateDatabase_proto_id:
  "Mapping.keys
     (updateDatabase [\<lparr>item_id = ''__proto__'', item_title = t, item_type = k, item_url = u\<rparr>]) = {}"
  by (simp add: updateDatabase_def set_property_def)

section \<open>Properties of the scraper\<close>

lemma match_id_digit_free: "\<forall>c \<in> set h. \<not> is_digit c \<Longrightarrow> match_id h = None"
proof (induction h)
  case Nil
  show ?case by simp
next
  case (Cons c cs)
  have "takeWhile is_digit cs = []"
  proof (cases cs)
    case Nil
    then show ?thesis by simp
  next
    case (Cons d ds)
    with Cons.prems show ?thesis by simp
  qed
  with Cons show ?case by simp
qed

lemma scrape_node_skip:
  assumes "node_href n = None \<or> (\<exists>h. node_href n = Some h \<and> (\<forall>c \<in> set h. \<not> is_digit c))"
  shows "scrape_node e n items = items"
  using assms by (auto simp: scrape_node_def match_id_digit_free)

lemma scrape_node_env: "scrape_node (e\<lparr>nodes := ns\<rparr>) = scrape_node e"
  by (intro ext) (simp add: scrape_node_def split: option.split)

lemma scrape_node_acc: "scrape_node e n acc = acc @ scrape_node e n []"
  by (simp add: scrape_node_def split: option.split)

lemma fold_scrape_node:
  "fold (scrape_node e) ns acc = acc @ concat (map (\<lambda>n. scrape_node e n []) ns)"
proof (induction ns arbitrary: acc)
  case Nil
  show ?case by simp
next
  case (Cons n ns)
  have "fold (scrape_node e) (n # ns) acc = fold (scrape_node e) ns (scrape_node e n acc)"
    by simp
  also have "\<dots> = scrape_node e n acc @ concat (map (\<lambda>n. scrape_node e n []) ns)"
    by (rule Cons.IH)
  also have "scrape_node e n acc = acc @ scrape_node e n []"
    by (rule scrape_node_acc)
  finally show ?case by simp
qed

lemma scrapeContent_nodes:
  "selector_found e \<Longrightarrow>
   scrapeContent (e\<lparr>nodes := ns\<rparr>) = Inr (concat (map (\<lambda>n. scrape_node e n []) ns))"
  by (simp add: scrapeContent_def scrape_node_env fold_scrape_node)

lemma match_id_digit_id: "match_id h = Some i \<Longrightarrow> digit_id i"
proof (induction h)
  case Nil
  then show ?case by simp
next
  case (Cons c cs)
  show ?case
  proof (cases "c = CHR ''/'' \<and> takeWhile is_digit cs \<noteq> []")
    case True
    with Cons.prems have i: "i = takeWhile is_digit cs" by simp
    have "list_all is_digit (takeWhile is_digit cs)"
      by (auto simp: list_all_iff dest: set_takeWhileD)
    with True i show ?thesis by (simp add: digit_id_def)
  next
    case False
    with Cons.prems have "match_id cs = Some i" by auto
    then show ?thesis by (rule Cons.IH)
  qed
qed

lemma scrape_node_digit_id: "it \<in> set (scrape_node e n []) \<Longrightarrow> digit_id (item_id it)"
  by (auto simp: scrape_node_def split: option.splits if_splits dest: match_id_digit_id[OF sym])

lemma scrapeContent_digit_ids:
  assumes "scrapeContent e = Inr its"
  shows "\<forall>it \<in> set its. digit_id (item_id it)"
proof -
  from assms have "its = fold (scrape_node e) (nodes e) []"
    by (simp add: scrapeContent_def split: if_splits)
  then have "its = concat (map (\<lambda>n. scrape_node e n []) (nodes e))"
    by (simp add: fold_scrape_node)
  then show ?thesis
    by (auto dest: scrape_node_digit_id)
qed

text \<open>
  Claim C7. A node whose link target is missing or contains no digit is skipped: it adds
  no item, the result of \<^verbatim>\<open>scrapeContent\<close> is the one of the page without that node,
  and no error is raised, the items of the other nodes being returned once the menu has
  loaded. A node that has an id and whose trimmed own text is empty gets the title
  \<^verbatim>\<open>Unknown Title\<close>: once the menu has loaded, the result of \<^verbatim>\<open>scrapeContent\<close> is the
  items of the nodes before it, then its item with that title, then the items of the
  nodes after it.
\<close>

theorem scrapeContent_skips_and_defaults:
  "(node_href n = None \<or> (\<exists>h. node_href n = Some h \<and> (\<forall>c \<in> set h. \<not> is_digit c)) \<longrightarrow>
      scrape_node e n items = items
      \<and> scrapeContent (e\<lparr>nodes := pre @ n # post\<rparr>) = scrapeContent (e\<lparr>nodes := pre @ post\<rparr>)
      \<and> (selector_found e \<longrightarrow> (\<exists>its. scrapeContent (e\<lparr>nodes := pre @ n # post\<rparr>) = Inr its)))
   \<and> (\<forall>h i. node_href n = Some h \<and> match_id h = Some i \<and> trim (node_own_text n) = [] \<longrightarrow>
        scrape_node e n items =
          items @ [\<lparr>item_id = i, item_title = ''Unknown Title'',
                     item_type = identifyContentType (node_details n) h,
                     item_url = base_url e @ h\<rparr>]
        \<and> (selector_found e \<longrightarrow>
             (\<exists>a b. scrapeContent (e\<lparr>nodes := pre\<rparr>) = Inr a
                  \<and> scrapeContent (e\<lparr>nodes := post\<rparr>) = Inr b
                  \<and> scrapeContent (e\<lparr>nodes := pre @ n # post\<rparr>) =
                      Inr (a @ [\<lparr>item_id = i, item_title = ''Unknown Title'',
                                  item_type = identifyContentType (node_details n) h,
                                  item_url = base_url e @ h\<rparr>] @ b))))"
proof (intro conjI impI allI)
  assume a: "node_href n = None \<or> (\<exists>h. node_href n = Some h \<and> (\<forall>c \<in> set h. \<not> is_digit c))"
  show "scrape_node e n items = items"
    using a by (rule scrape_node_skip)
  have "scrape_node e n xs = xs" for xs
    using a by (rule scrape_node_skip)
  then show "scrapeContent (e\<lparr>nodes := pre @ n # post\<rparr>) = scrapeContent (e\<lparr>nodes := pre @ post\<rparr>)"
    by (simp add: scrapeContent_def scrape_node_env)
  show "\<exists>its. scrapeContent (e\<lparr>nodes := pre @ n # post\<rparr>) = Inr its" if "selector_found e"
    using that by (simp add: scrapeContent_def)
next
  fix h i
  assume m: "node_href n = Some h \<and> match_id h = Some i \<and> trim (node_own_text n) = []"
  then have "h \<noteq> []" by auto
  with m show one: "scrape_node e n xs =
          xs @ [\<lparr>item_id = i, item_title = ''Unknown Title'',
                  item_type = identifyContentType (node_details n) h,
                  item_url = base_url e @ h\<rparr>]" for xs
    by (simp add: scrape_node_def)
  show "\<exists>a b. scrapeContent (e\<lparr>nodes := pre\<rparr>) = Inr a
             \<and> scrapeContent (e\<lparr>nodes := post\<rparr>) = Inr b
             \<and> scrapeContent (e\<lparr>nodes := pre @ n # post\<rparr>) =
                 Inr (a @ [\<lparr>item_id = i, item_title = ''Unknown Title'',
                             item_type = identifyContentType (node_details n) h,
                             item_url = base_url e @ h\<rparr>] @ b)"
    if "selector_found e"
    using that one [of "[]"] by (simp add: scrapeContent_nodes)
qed

section \<open>Properties of the thumbnail extraction\<close>

lemma scan_scripts_thumbnails:
  "scan_scripts ss = (case script_thumbnails ss of [] \<Rightarrow> None | u # us \<Rightarrow> Some u)"
  by (induction ss rule: scan_scripts.induct) (simp_all add: script_thumbnails_def)

lemma script_thumbnails_truthy: "u \<in> set (script_thumbnails ss) \<Longrightarrow> u \<noteq> []"
  by (induction ss rule: scan_scripts.induct) (auto simp: script_thumbnails_def)

lemma scan_frames_thumbnails:
  "scan_frames fs =
     (case page_thumbnails (takeWhile (\<lambda>f. f \<noteq> FrameError) fs) of
        u # us \<Rightarrow> Inr (Some u)
      | [] \<Rightarrow> if FrameError \<in> set fs then Inl DriverError else Inr None)"
proof (induction fs rule: scan_frames.induct)
  case 1
  show ?case by (simp add: page_thumbnails_def)
next
  case (2 fs)
  show ?case by (simp add: page_thumbnails_def)
next
  case (3 ss fs)
  show ?case
  proof (cases "script_thumbnails ss")
    case Nil
    with 3 show ?thesis
      by (simp add: scan_scripts_thumbnails page_thumbnails_def)
  next
    case (Cons u us)
    then have "u \<noteq> []" using script_thumbnails_truthy[of u ss] by simp
    with Cons show ?thesis
      by (simp add: scan_scripts_thumbnails page_thumbnails_def)
  qed
qed

lemma page_thumbnails_takeWhile:
  "page_thumbnails fs = [] \<Longrightarrow> page_thumbnails (takeWhile P fs) = []"
proof (induction fs)
  case Nil
  show ?case by (simp add: page_thumbnails_def)
next
  case (Cons f fs)
  from Cons.prems have "page_thumbnails fs = []"
    by (simp add: page_thumbnails_def)
  with Cons.IH have "page_thumbnails (takeWhile P fs) = []" .
  with Cons.prems show ?case
    by (cases "P f") (simp_all add: page_thumbnails_def)
qed

lemma extractThumbnail_Loaded:
  "goto e url = Loaded fs \<Longrightarrow>
     extractThumbnail e url =
       Inr (case page_thumbnails (takeWhile (\<lambda>f. f \<noteq> FrameError) fs) of
              [] \<Rightarrow> None | u # us \<Rightarrow> Some u)"
  by (simp add: extractThumbnail_def extractThumbnail_try_def scan_frames_thumbnails
           split: list.split)

lemma extractThumbnail_total: "\<exists>r. extractThumbnail e url = Inr r"
  by (simp add: extractThumbnail_def split: sum.split)

lemma page_thumbnails_append:
  "page_thumbnails (xs @ ys) = page_thumbnails xs @ page_thumbnails ys"
  by (simp add: page_thumbnails_def)

lemma hd_page_thumbnails_takeWhile:
  assumes "page_thumbnails (takeWhile P fs) \<noteq> []"
  shows "hd (page_thumbnails (takeWhile P fs)) = hd (page_thumbnails fs)"
proof -
  have "page_thumbnails fs = page_thumbnails (takeWhile P fs) @ page_thumbnails (dropWhile P fs)"
    by (simp add: page_thumbnails_append[symmetric])
  with assms show ?thesis by simp
qed

text \<open>
  Claim C8, as the code has it. For every URL and every state of the browser,
  \<^verbatim>\<open>extractThumbnail\<close> returns and never raises. It returns \<^verbatim>\<open>null\<close> when the
  navigation fails, when no frame holds a thumbnail, and when the evaluation of a frame
  fails before a thumbnail has been found in the frames that precede it. Otherwise, that
  is when a frame that precedes every frame whose evaluation fails holds a thumbnail, it
  returns the first thumbnail of the page in document order across frames. A
  thumbnail is a non-empty \<^verbatim>\<open>thumbnailUrl\<close>, as the test \<^verbatim>\<open>if (data.thumbnailUrl)\<close>
  has it.
\<close>

theorem extractThumbnail_never_raises:
  "(\<exists>r. extractThumbnail e url = Inr r)
   \<and> (goto e url = NavigationError \<longrightarrow> extractThumbnail e url = Inr None)
   \<and> (\<forall>fs. goto e url = Loaded fs \<and> page_thumbnails fs = [] \<longrightarrow> extractThumbnail e url = Inr None)
   \<and> (\<forall>fs. goto e url = Loaded fs
            \<and> page_thumbnails (takeWhile (\<lambda>f. f \<noteq> FrameError) fs) = [] \<longrightarrow>
         extractThumbnail e url = Inr None)
   \<and> (\<forall>fs. goto e url = Loaded fs
            \<and> page_thumbnails (takeWhile (\<lambda>f. f \<noteq> FrameError) fs) \<noteq> [] \<longrightarrow>
         extractThumbnail e url = Inr (Some (hd (page_thumbnails fs))))
   \<and> (\<forall>fs. goto e url = Loaded fs \<and> FrameError \<notin> set fs \<and> page_thumbnails fs \<noteq> [] \<longrightarrow>
         extractThumbnail e url = Inr (Some (hd (page_thumbnails fs))))"
proof (intro conjI allI impI)
  show "\<exists>r. extractThumbnail e url = Inr r" by (rule extractThumbnail_total)
  show "extractThumbnail e url = Inr None" if "goto e url = NavigationError"
    using that by (simp add: extractThumbnail_def extractThumbnail_try_def)
  show "extractThumbnail e url = Inr None" if "goto e url = Loaded fs \<and> page_thumbnails fs = []" for fs
    using that by (simp add: extractThumbnail_Loaded page_thumbnails_takeWhile)
  show "extractThumbnail e url = Inr None"
    if "goto e url = Loaded fs \<and> page_thumbnails (takeWhile (\<lambda>f. f \<noteq> FrameError) fs) = []" for fs
    using that by (simp add: extractThumbnail_Loaded)
  show first: "extractThumbnail e url = Inr (Some (hd (page_thumbnails fs)))"
    if h: "goto e url = Loaded fs \<and> page_thumbnails (takeWhile (\<lambda>f. f \<noteq> FrameError) fs) \<noteq> []" for fs
  proof -
    from h have "extractThumbnail e url =
        Inr (Some (hd (page_thumbnails (takeWhile (\<lambda>f. f \<noteq> FrameError) fs))))"
      by (simp add: extractThumbnail_Loaded split: list.split)
    with h show ?thesis by (simp add: hd_page_thumbnails_takeWhile)
  qed
  show "extractThumbnail e url = Inr (Some (hd (page_thumbnails fs)))"
    if h: "goto e url = Loaded fs \<and> FrameError \<notin> set fs \<and> page_thumbnails fs \<noteq> []" for fs
  proof -
    from h have tw: "takeWhile (\<lambda>f. f \<noteq> FrameError) fs = fs"
      by auto
    from h have "goto e url = Loaded fs
        \<and> page_thumbnails (takeWhile (\<lambda>f. f \<noteq> FrameError) fs) \<noteq> []"
      unfolding tw by simp
    then show ?thesis by (rule first)
  qed
qed

section \<open>Properties of a cycle\<close>

lemma readJSON_total: "readJSON f = Inr (catalog f)"
  by (simp add: catalog_def readJSON_def readJSON_try_def split: json_file.split)

lemma is_empty_eq: "Mapping.is_empty m \<Longrightarrow> m = Mapping.empty"
proof (rule mapping_eqI)
  fix k
  assume "Mapping.is_empty m"
  then have "Mapping.keys m = {}" by (simp add: Mapping.is_empty_def)
  then have "k \<notin> Mapping.keys m" by simp
  then show "Mapping.lookup m k = Mapping.lookup Mapping.empty k"
    by (simp add: Mapping.keys_dom_lookup domIff)
qed

lemma updateDatabase_Nil: "updateDatabase [] = Mapping.empty"
  by (simp add: updateDatabase_def)

lemma prepare_alert: "\<exists>c. prepare e a = Inr c \<and> build_embed e c (action_type a) = alert e a"
proof -
  obtain r where r: "extractThumbnail e (item_url (action_data a)) = Inr r"
    using extractThumbnail_total by blast
  show ?thesis
    by (cases r) (simp_all add: prepare_def alert_def r build_embed_def with_image_def)
qed

lemma processActions_step:
  "processActions e (a # as) ps =
     (if sink e ps (alert e a) then processActions e as (ps @ [alert e a])
      else (Inl NotificationError, ps @ [alert e a]))"
proof -
  obtain c where "prepare e a = Inr c" "build_embed e c (action_type a) = alert e a"
    using prepare_alert by blast
  then show ?thesis by (simp add: send_def)
qed

lemma processActions_run:
  "n \<le> length as \<Longrightarrow>
   (\<And>i. i < n \<Longrightarrow> sink e (ps @ take i (map (alert e) as)) (map (alert e) as ! i)) \<Longrightarrow>
   (n < length as \<Longrightarrow> \<not> sink e (ps @ take n (map (alert e) as)) (map (alert e) as ! n)) \<Longrightarrow>
   processActions e as ps =
     (if n < length as then Inl NotificationError else Inr (), ps @ take (Suc n) (map (alert e) as))"
proof (induction as arbitrary: ps n)
  case Nil
  then show ?case by simp
next
  case (Cons a as)
  show ?case
  proof (cases n)
    case 0
    with Cons.prems(3) have "\<not> sink e ps (alert e a)" by simp
    with 0 show ?thesis by (simp add: processActions_step del: processActions.simps)
  next
    case (Suc m)
    from Cons.prems(2)[of 0] Suc have ok: "sink e ps (alert e a)" by simp
    have le: "m \<le> length as" using Cons.prems(1) Suc by simp
    have "processActions e as (ps @ [alert e a]) =
            (if m < length as then Inl NotificationError else Inr (),
             (ps @ [alert e a]) @ take (Suc m) (map (alert e) as))"
    proof (rule Cons.IH[OF le])
      fix i assume "i < m"
      then have "Suc i < n" using Suc by simp
      from Cons.prems(2)[OF this]
      show "sink e ((ps @ [alert e a]) @ take i (map (alert e) as)) (map (alert e) as ! i)"
        by simp
    next
      assume "m < length as"
      then have "n < length (a # as)" using Suc by simp
      from Cons.prems(3)[OF this] Suc
      show "\<not> sink e ((ps @ [alert e a]) @ take m (map (alert e) as)) (map (alert e) as ! m)"
        by simp
    qed
    with ok Suc show ?thesis by (simp add: processActions_step del: processActions.simps)
  qed
qed

lemma check_try_unfold:
  "launch_ok e \<Longrightarrow> auth_ok e \<Longrightarrow> scrapeContent e = Inr its \<Longrightarrow>
   check_try e w =
     (if detectChanges its (catalog (db_file w)) \<noteq> [] then
        (case (if Mapping.is_empty (catalog (db_file w)) then (Inr (), posts w)
               else processActions e (detectChanges its (catalog (db_file w))) (posts w)) of
           (Inl err, ps) \<Rightarrow> (Inl err, w\<lparr>posts := ps\<rparr>)
         | (Inr u, ps) \<Rightarrow>
             (case writeJSON e (db_file w) (updateDatabase its) of
                (r, f) \<Rightarrow> (r, \<lparr>db_file = f, posts = ps\<rparr>)))
      else (Inr (), w))"
  by (simp add: check_try_def readJSON_total Let_def)

lemma check_try_posts_bootstrap:
  "Mapping.is_empty (catalog (db_file w)) \<Longrightarrow> posts (snd (check_try e w)) = posts w"
  by (simp add: check_try_def readJSON_total Let_def writeJSON_def
           split: sum.split option.split prod.split)

lemma check_posts:
  assumes "launch_ok e" "auth_ok e" "scrapeContent e = Inr its"
    and "\<not> Mapping.is_empty (catalog (db_file w))"
    and "processActions e (detectChanges its (catalog (db_file w))) (posts w) = (r, ps)"
  shows "posts (check e w) = ps"
proof (cases "detectChanges its (catalog (db_file w))")
  case Nil
  with assms show ?thesis by (simp add: check_def check_try_unfold)
next
  case (Cons a as)
  with assms show ?thesis
    by (cases r) (simp_all add: check_def check_try_unfold writeJSON_def split: option.split)
qed

lemma check_dispatch_error:
  assumes "launch_ok e" "auth_ok e" "scrapeContent e = Inr its"
    and "\<not> Mapping.is_empty (catalog (db_file w))"
    and "processActions e (detectChanges its (catalog (db_file w))) (posts w) = (Inl err, ps)"
  shows "check_try e w = (Inl err, w\<lparr>posts := ps\<rparr>)"
proof (cases "detectChanges its (catalog (db_file w))")
  case Nil
  with assms(5) show ?thesis by simp
next
  case (Cons a as)
  with assms show ?thesis by (simp add: check_try_unfold)
qed

lemma check_commit:
  assumes "launch_ok e" "auth_ok e" "scrapeContent e = Inr its"
    and "detectChanges its (catalog (db_file w)) \<noteq> []"
    and "Mapping.is_empty (catalog (db_file w)) \<or>
         fst (processActions e (detectChanges its (catalog (db_file w))) (posts w)) = Inr ()"
  shows "fst (check_try e w) = fst (writeJSON e (db_file w) (updateDatabase its))"
    and "db_file (check e w) = snd (writeJSON e (db_file w) (updateDatabase its))"
  using assms
  by (auto simp: check_def check_try_unfold split: prod.split sum.split)

text \<open>
  Claim C3. In a cycle that is not the first run, let \<open>n\<close> be the index of the first
  event whose request the webhook does not accept (or the number of events when it
  accepts all). The requests made are those of the events up to and including that one,
  in the order of the batch. When a request fails, the cycle ends with the notification
  error, no later event is sent, the database file is left as it was, and the same item
  list gives the same events against the database a next cycle reads.
\<close>

theorem dispatch_fail_fast:
  assumes "launch_ok e" "auth_ok e" "scrapeContent e = Inr its"
    and "\<not> Mapping.is_empty (catalog (db_file w))"
    and "acts = detectChanges its (catalog (db_file w))"
    and "n \<le> length acts"
    and "\<forall>i<n. sink e (posts w @ take i (map (alert e) acts)) (map (alert e) acts ! i)"
    and "n < length acts \<longrightarrow>
           \<not> sink e (posts w @ take n (map (alert e) acts)) (map (alert e) acts ! n)"
  shows "posts (check e w) = posts w @ take (Suc n) (map (alert e) acts)
         \<and> (n < length acts \<longrightarrow>
              fst (check_try e w) = Inl NotificationError
              \<and> db_file (check e w) = db_file w
              \<and> detectChanges its (catalog (db_file (check e w))) = acts)"
proof -
  have run: "processActions e acts (posts w) =
          (if n < length acts then Inl NotificationError else Inr (),
           posts w @ take (Suc n) (map (alert e) acts))"
    using assms(6-8) by (intro processActions_run) simp_all
  then have p: "posts (check e w) = posts w @ take (Suc n) (map (alert e) acts)"
    using check_posts[OF assms(1-4)] assms(5) by simp
  have "fst (check_try e w) = Inl NotificationError
        \<and> db_file (check e w) = db_file w
        \<and> detectChanges its (catalog (db_file (check e w))) = acts" if "n < length acts"
  proof -
    from run that have "processActions e (detectChanges its (catalog (db_file w))) (posts w) =
        (Inl NotificationError, posts w @ take (Suc n) (map (alert e) acts))"
      using assms(5) by simp
    from check_dispatch_error[OF assms(1-4) this]
    show ?thesis by (simp add: check_def assms(5))
  qed
  with p show ?thesis by blast
qed

text \<open>
  Claim C4. In a cycle that finds the database empty, no request is made to the
  webhook, however many items the page lists. When the browser starts, the login and the
  scrape succeed and the write succeeds, the database read afterwards is the one
  \<^verbatim>\<open>updateDatabase\<close> derives from the current items, its keys are exactly their ids, and
  the file holds it whenever there is at least one item (with no item nothing is
  written, and the database stays empty).
\<close>

theorem bootstrap_silent:
  assumes "Mapping.is_empty (catalog (db_file w))"
  shows "posts (check e w) = posts w
         \<and> (launch_ok e \<and> auth_ok e \<and> scrapeContent e = Inr its
              \<and> disk e (updateDatabase its) = None \<longrightarrow>
              catalog (db_file (check e w)) = updateDatabase its
              \<and> Mapping.keys (catalog (db_file (check e w))) = item_id ` set its
              \<and> (its \<noteq> [] \<longrightarrow> db_file (check e w) = Stored (updateDatabase its)))"
proof (intro conjI impI)
  show "posts (check e w) = posts w"
    using assms by (simp add: check_def check_try_posts_bootstrap)
next
  assume h: "launch_ok e \<and> auth_ok e \<and> scrapeContent e = Inr its
              \<and> disk e (updateDatabase its) = None"
  have ids: "\<forall>it \<in> set its. digit_id (item_id it)"
    using h scrapeContent_digit_ids by blast
  have empty: "catalog (db_file w) = Mapping.empty"
    using assms by (rule is_empty_eq)
  have stored: "db_file (check e w) = Stored (updateDatabase its)" if "its \<noteq> []"
  proof -
    from that have "detectChanges its (catalog (db_file w)) \<noteq> []"
      by (simp add: empty detectChanges_empty [OF ids])
    with h assms show ?thesis
      by (simp add: check_def check_try_unfold writeJSON_def)
  qed
  show c: "catalog (db_file (check e w)) = updateDatabase its"
  proof (cases "its = []")
    case True
    with h have "check e w = w"
      by (simp add: check_def check_try_unfold detectChanges_Nil)
    with True empty show ?thesis by (simp add: updateDatabase_Nil)
  next
    case False
    then show ?thesis by (simp add: stored catalog_def readJSON_def readJSON_try_def)
  qed
  show "Mapping.keys (catalog (db_file (check e w))) = item_id ` set its"
    by (simp add: c keys_updateDatabase [OF ids])
  show "db_file (check e w) = Stored (updateDatabase its)" if "its \<noteq> []"
    using that by (rule stored)
qed

text \<open>
  Claim C5, as the code has it. In a cycle that is not the first run and detects at
  least one event, when every request succeeds and the write succeeds, the database
  file afterwards holds the \<^verbatim>\<open>{ title, type }\<close> projection of the current item list. In
  a cycle that detects no event, nothing is written and nothing changes.
\<close>

theorem commit_after_dispatch:
  assumes "launch_ok e" "auth_ok e" "scrapeContent e = Inr its"
    and "\<not> Mapping.is_empty (catalog (db_file w))"
    and "acts = detectChanges its (catalog (db_file w))"
  shows "(acts \<noteq> []
            \<and> (\<forall>i<length acts. sink e (posts w @ take i (map (alert e) acts)) (map (alert e) acts ! i))
            \<and> disk e (updateDatabase its) = None \<longrightarrow>
          db_file (check e w) = Stored (updateDatabase its)
          \<and> catalog (db_file (check e w)) = updateDatabase its)
         \<and> (acts = [] \<longrightarrow> check e w = w)"
proof (intro conjI impI)
  assume h: "acts \<noteq> []
            \<and> (\<forall>i<length acts. sink e (posts w @ take i (map (alert e) acts)) (map (alert e) acts ! i))
            \<and> disk e (updateDatabase its) = None"
  have "processActions e acts (posts w) =
          (if length acts < length acts then Inl NotificationError else Inr (),
           posts w @ take (Suc (length acts)) (map (alert e) acts))"
    using h by (intro processActions_run) simp_all
  then have "fst (processActions e (detectChanges its (catalog (db_file w))) (posts w)) = Inr ()"
    using assms(5) by simp
  with h assms(5)
  show s: "db_file (check e w) = Stored (updateDatabase its)"
    using check_commit(2)[OF assms(1-3), of w] by (simp add: writeJSON_def)
  show "catalog (db_file (check e w)) = updateDatabase its"
    by (simp add: s catalog_def readJSON_def readJSON_try_def)
next
  assume "acts = []"
  with assms show "check e w = w"
    by (simp add: check_def check_try_unfold)
qed

text \<open>
  Claim C9. \<^verbatim>\<open>readJSON\<close> gives the empty object for a missing, an unreadable and an
  unparseable file, and gives a result, never an error, for every file. A failing write
  makes \<^verbatim>\<open>writeJSON\<close> raise, and when that happens at the commit of a cycle, the
  body of \<^verbatim>\<open>check\<close> ends with the write error.
\<close>

theorem storage_errors:
  "readJSON Missing = Inr Mapping.empty
   \<and> readJSON Unreadable = Inr Mapping.empty
   \<and> readJSON Unparseable = Inr Mapping.empty
   \<and> (\<exists>db. readJSON f = Inr db)
   \<and> (\<forall>f'. disk e data = Some f' \<longrightarrow> writeJSON e f data = (Inl WriteError, f'))
   \<and> (\<forall>f'. launch_ok e \<and> auth_ok e \<and> scrapeContent e = Inr its
            \<and> detectChanges its (catalog (db_file w)) \<noteq> []
            \<and> (Mapping.is_empty (catalog (db_file w)) \<or>
                fst (processActions e (detectChanges its (catalog (db_file w))) (posts w)) = Inr ())
            \<and> disk e (updateDatabase its) = Some f' \<longrightarrow>
          fst (check_try e w) = Inl WriteError \<and> db_file (check e w) = f')"
proof (intro conjI allI impI)
  show "readJSON Missing = Inr Mapping.empty"
    by (simp add: readJSON_def readJSON_try_def)
  show "readJSON Unreadable = Inr Mapping.empty"
    by (simp add: readJSON_def readJSON_try_def)
  show "readJSON Unparseable = Inr Mapping.empty"
    by (simp add: readJSON_def readJSON_try_def)
  show "\<exists>db. readJSON f = Inr db"
    by (simp add: readJSON_total)
  show "writeJSON e f data = (Inl WriteError, f')" if "disk e data = Some f'" for f'
    using that by (simp add: writeJSON_def)
next
  fix f'
  assume h: "launch_ok e \<and> auth_ok e \<and> scrapeContent e = Inr its
            \<and> detectChanges its (catalog (db_file w)) \<noteq> []
            \<and> (Mapping.is_empty (catalog (db_file w)) \<or>
                fst (processActions e (detectChanges its (catalog (db_file w))) (posts w)) = Inr ())
            \<and> disk e (updateDatabase its) = Some f'"
  then have "fst (check_try e w) = fst (writeJSON e (db_file w) (updateDatabase its))"
    and "db_file (check e w) = snd (writeJSON e (db_file w) (updateDatabase its))"
    using check_commit[of e its w] by blast+
  with h show "fst (check_try e w) = Inl WriteError" by (simp add: writeJSON_def)
  from h \<open>db_file (check e w) = snd (writeJSON e (db_file w) (updateDatabase its))\<close>
  show "db_file (check e w) = f'" by (simp add: writeJSON_def)
qed

section \<open>The properties at the example inputs\<close>

lemma scrape_lesson_node: "scrape_node school lesson_node xs = xs @ [video1]"
  by (simp add: scrape_node_def lesson_node_def is_digit_def trim_def is_space_def
        identifyContentType_def school_def video1_def)

lemma scrape_header_node: "scrape_node school header_node xs = xs"
  by (simp add: scrape_node_def header_node_def is_digit_def)

lemma scrape_untitled_node: "scrape_node school untitled_node xs = xs @ [untitled2]"
  by (simp add: scrape_node_def untitled_node_def is_digit_def trim_def is_space_def
        identifyContentType_def school_def untitled2_def)

lemma scrape_quiz_node: "scrape_node school quiz_node xs = xs @ [quiz3]"
  by (simp add: scrape_node_def quiz_node_def is_digit_def trim_def is_space_def
        identifyContentType_def school_def quiz3_def)

lemma nodes_school: "nodes school = [lesson_node, header_node, untitled_node, quiz_node]"
  by (simp add: school_def)

lemma selector_school: "selector_found school"
  by (simp add: school_def)

lemma fold_school: "fold (scrape_node school) (nodes school) [] = school_items"
  by (simp add: nodes_school scrape_lesson_node scrape_header_node
        scrape_untitled_node scrape_quiz_node school_items_def)

lemma scrape_school: "scrapeContent school = Inr school_items"
  by (simp add: scrapeContent_def selector_school fold_school)

lemma scrape_node_sink: "scrape_node (e\<lparr>sink := s\<rparr>) = scrape_node e"
  by (intro ext) (simp add: scrape_node_def split: option.split)

lemma scrape_node_disk: "scrape_node (e\<lparr>disk := d\<rparr>) = scrape_node e"
  by (intro ext) (simp add: scrape_node_def split: option.split)

lemma scrape_calm: "scrapeContent calm_school = Inr school_items"
  by (simp add: calm_school_def scrapeContent_def scrape_node_sink selector_school fold_school)

lemma scrape_full_disk: "scrapeContent full_disk_school = Inr school_items"
  by (simp add: full_disk_school_def calm_school_def scrapeContent_def scrape_node_sink
        scrape_node_disk selector_school fold_school)

lemma scrape_renamed: "scrapeContent renamed_school = Inr [text1]"
  by (simp add: scrapeContent_def renamed_school_def calm_school_def school_def scrape_node_def
        is_digit_def trim_def is_space_def identifyContentType_def text1_def)

lemma catalog_known: "catalog (db_file known_world) = catalog1"
  by (simp add: known_world_def catalog_def readJSON_def readJSON_try_def)

lemma catalog1_not_empty: "\<not> Mapping.is_empty catalog1"
  by (simp add: catalog1_def)

lemma actions_school:
  "detectChanges school_items catalog1 =
     [\<lparr>action_type = UPDATE, action_data = video1\<rparr>,
      \<lparr>action_type = NEW, action_data = untitled2\<rparr>,
      \<lparr>action_type = NEW, action_data = quiz3\<rparr>]"
  by (simp add: school_items_def detectChanges_Cons detectChanges_Nil events_of_cases
        Object_prototype_def catalog1_def video1_def untitled2_def quiz3_def)

lemma actions_renamed: "detectChanges [text1] catalog1 = []"
  by (simp add: detectChanges_Cons detectChanges_Nil events_of_cases catalog1_def text1_def)

lemma flags_school: "launch_ok school" "auth_ok school"
  by (simp_all add: school_def)

lemma flags_calm: "launch_ok calm_school" "auth_ok calm_school"
  by (simp_all add: calm_school_def school_def)

lemma flags_renamed: "launch_ok renamed_school" "auth_ok renamed_school"
  by (simp_all add: renamed_school_def calm_school_def school_def)

lemma flags_full_disk: "launch_ok full_disk_school" "auth_ok full_disk_school"
  by (simp_all add: full_disk_school_def calm_school_def school_def)

lemma thumbnails_lesson:
  "FrameError \<notin> set lesson_frames"
  "page_thumbnails lesson_frames = [''https://img.example/1.png'', ''https://img.example/2.png'']"
  by (simp_all add: lesson_frames_def page_thumbnails_def script_thumbnails_def)

lemma goto_school:
  "goto school ''https://school.example/lessons/1'' = Loaded lesson_frames"
  "goto school ''https://school.example/texts/2'' = NavigationError"
  by (simp_all add: school_def)

lemma header_digit_free: "\<forall>c \<in> set ''#chapter-one''. \<not> is_digit c"
  by (simp add: is_digit_def)

theorem scrapeContent_skips_and_defaults_witness:
  "scrape_node school header_node [video1] = [video1]
   \<and> scrapeContent (school\<lparr>nodes := [lesson_node] @ header_node # [untitled_node, quiz_node]\<rparr>) =
       scrapeContent (school\<lparr>nodes := [lesson_node] @ [untitled_node, quiz_node]\<rparr>)
   \<and> (\<exists>its. scrapeContent (school\<lparr>nodes := [lesson_node] @ header_node # [untitled_node, quiz_node]\<rparr>) = Inr its)
   \<and> trim (node_own_text untitled_node) = []
   \<and> scrape_node school untitled_node [video1] = [video1, untitled2]
   \<and> scrapeContent (school\<lparr>nodes := [lesson_node, header_node] @ untitled_node # [quiz_node]\<rparr>) =
       Inr ([video1] @ [untitled2] @ [quiz3])"
proof -
  have skip: "node_href header_node = None \<or>
        (\<exists>h. node_href header_node = Some h \<and> (\<forall>c \<in> set h. \<not> is_digit c))"
    using header_digit_free by (simp add: header_node_def)
  have m: "node_href untitled_node = Some ''/texts/2'' \<and> match_id ''/texts/2'' = Some ''2''
        \<and> trim (node_own_text untitled_node) = []"
    by (simp add: untitled_node_def is_digit_def trim_def is_space_def)
  have t: "identifyContentType (node_details untitled_node) ''/texts/2'' = TEXT"
    by (simp add: untitled_node_def identifyContentType_def)
  have b: "base_url school = ''https://school.example''"
    by (simp add: school_def)
  have u: "\<lparr>item_id = ''2'', item_title = ''Unknown Title'',
             item_type = identifyContentType (node_details untitled_node) ''/texts/2'',
             item_url = base_url school @ ''/texts/2''\<rparr> = untitled2"
    by (simp add: t b untitled2_def)
  from scrapeContent_skips_and_defaults
         [of header_node school "[video1]" "[lesson_node]" "[untitled_node, quiz_node]"]
       skip selector_school
  have 1: "scrape_node school header_node [video1] = [video1]
   \<and> scrapeContent (school\<lparr>nodes := [lesson_node] @ header_node # [untitled_node, quiz_node]\<rparr>) =
       scrapeContent (school\<lparr>nodes := [lesson_node] @ [untitled_node, quiz_node]\<rparr>)
   \<and> (\<exists>its. scrapeContent (school\<lparr>nodes := [lesson_node] @ header_node # [untitled_node, quiz_node]\<rparr>) = Inr its)"
    by blast
  from scrapeContent_skips_and_defaults
         [of untitled_node school "[video1]" "[lesson_node, header_node]" "[quiz_node]"]
       m selector_school
  have "scrape_node school untitled_node [video1] =
          [video1] @ [\<lparr>item_id = ''2'', item_title = ''Unknown Title'',
                     item_type = identifyContentType (node_details untitled_node) ''/texts/2'',
                     item_url = base_url school @ ''/texts/2''\<rparr>]
        \<and> (\<exists>a b. scrapeContent (school\<lparr>nodes := [lesson_node, header_node]\<rparr>) = Inr a
                \<and> scrapeContent (school\<lparr>nodes := [quiz_node]\<rparr>) = Inr b
                \<and> scrapeContent (school\<lparr>nodes := [lesson_node, header_node] @ untitled_node # [quiz_node]\<rparr>) =
                    Inr (a @ [\<lparr>item_id = ''2'', item_title = ''Unknown Title'',
                                item_type = identifyContentType (node_details untitled_node) ''/texts/2'',
                                item_url = base_url school @ ''/texts/2''\<rparr>] @ b))"
    by blast
  then have 2: "scrape_node school untitled_node [video1] = [video1, untitled2]"
    and "\<exists>a b. scrapeContent (school\<lparr>nodes := [lesson_node, header_node]\<rparr>) = Inr a
                \<and> scrapeContent (school\<lparr>nodes := [quiz_node]\<rparr>) = Inr b
                \<and> scrapeContent (school\<lparr>nodes := [lesson_node, header_node] @ untitled_node # [quiz_node]\<rparr>) =
                    Inr (a @ [untitled2] @ b)"
    unfolding u by simp_all
  then obtain a b where
    a: "scrapeContent (school\<lparr>nodes := [lesson_node, header_node]\<rparr>) = Inr a" and
    b: "scrapeContent (school\<lparr>nodes := [quiz_node]\<rparr>) = Inr b" and
    ab: "scrapeContent (school\<lparr>nodes := [lesson_node, header_node] @ untitled_node # [quiz_node]\<rparr>) =
           Inr (a @ [untitled2] @ b)"
    by blast
  have "scrapeContent (school\<lparr>nodes := [lesson_node, header_node]\<rparr>) = Inr [video1]"
    by (simp add: scrapeContent_nodes selector_school scrape_lesson_node scrape_header_node)
  with a have a1: "a = [video1]" by simp
  have "scrapeContent (school\<lparr>nodes := [quiz_node]\<rparr>) = Inr [quiz3]"
    by (simp add: scrapeContent_nodes selector_school scrape_quiz_node)
  with b have b1: "b = [quiz3]" by simp
  from ab have 3: "scrapeContent (school\<lparr>nodes := [lesson_node, header_node] @ untitled_node # [quiz_node]\<rparr>) =
       Inr ([video1] @ [untitled2] @ [quiz3])"
    unfolding a1 b1 .
  from 1 2 3 m show ?thesis by blast
qed

lemma goto_flaky: "goto flaky_school u = Loaded broken_frames"
  by (simp add: flaky_school_def)

lemma thumbnails_broken:
  "page_thumbnails broken_frames = [''https://img.example/1.png'']"
  "page_thumbnails (takeWhile (\<lambda>f. f \<noteq> FrameError) broken_frames) = []"
  by (simp_all add: broken_frames_def page_thumbnails_def script_thumbnails_def)

theorem extractThumbnail_never_raises_witness:
  "extractThumbnail school ''https://school.example/lessons/1'' = Inr (Some ''https://img.example/1.png'')
   \<and> extractThumbnail school ''https://school.example/texts/2'' = Inr None
   \<and> extractThumbnail flaky_school ''https://school.example/lessons/1'' = Inr None"
proof (intro conjI)
  have t: "page_thumbnails (takeWhile (\<lambda>f. f \<noteq> FrameError) lesson_frames) \<noteq> []"
    by (simp add: lesson_frames_def page_thumbnails_def script_thumbnails_def)
  from extractThumbnail_never_raises [of school "''https://school.example/lessons/1''"]
  have "goto school ''https://school.example/lessons/1'' = Loaded lesson_frames
          \<and> page_thumbnails (takeWhile (\<lambda>f. f \<noteq> FrameError) lesson_frames) \<noteq> [] \<longrightarrow>
        extractThumbnail school ''https://school.example/lessons/1'' =
          Inr (Some (hd (page_thumbnails lesson_frames)))"
    by blast
  with t show "extractThumbnail school ''https://school.example/lessons/1'' =
      Inr (Some ''https://img.example/1.png'')"
    by (simp add: goto_school thumbnails_lesson)
  from extractThumbnail_never_raises [of school "''https://school.example/texts/2''"]
  show "extractThumbnail school ''https://school.example/texts/2'' = Inr None"
    by (simp add: goto_school)
  from extractThumbnail_never_raises [of flaky_school "''https://school.example/lessons/1''"]
  have "goto flaky_school ''https://school.example/lessons/1'' = Loaded broken_frames
          \<and> page_thumbnails (takeWhile (\<lambda>f. f \<noteq> FrameError) broken_frames) = [] \<longrightarrow>
        extractThumbnail flaky_school ''https://school.example/lessons/1'' = Inr None"
    by blast
  then show "extractThumbnail flaky_school ''https://school.example/lessons/1'' = Inr None"
    by (simp add: goto_flaky thumbnails_broken)
qed

text \<open>
  Claim C8, as stated, fails: the navigation succeeds, the evaluation of the first
  frame is rejected and the second frame holds a thumbnail. No navigation error has
  occurred and a frame holds a thumbnail, so the claim has the first thumbnail
  returned; the rejection is caught by the \<^verbatim>\<open>catch\<close> around the loop and the result
  is \<^verbatim>\<open>null\<close>.
\<close>

theorem extractThumbnail_frame_error_counterexample:
  "goto flaky_school ''https://school.example/lessons/1'' = Loaded broken_frames
   \<and> broken_frames = [FrameError, Frame [LdJson (Some ''https://img.example/1.png'')]]
   \<and> page_thumbnails broken_frames = [''https://img.example/1.png'']
   \<and> extractThumbnail flaky_school ''https://school.example/lessons/1'' = Inr None
   \<and> extractThumbnail flaky_school ''https://school.example/lessons/1'' \<noteq>
       Inr (Some (hd (page_thumbnails broken_frames)))"
proof -
  have r: "extractThumbnail flaky_school ''https://school.example/lessons/1'' = Inr None"
    by (simp add: extractThumbnail_def extractThumbnail_try_def goto_flaky broken_frames_def)
  then show ?thesis
    by (simp add: goto_flaky thumbnails_broken) (simp add: broken_frames_def)
qed

lemma catalog_Stored: "catalog (Stored db) = db"
  by (simp add: catalog_def readJSON_def readJSON_try_def)

lemma sink_school: "sink school ps em = (length ps \<noteq> 1)"
  by (simp add: school_def)

lemma sink_calm: "sink calm_school ps em"
  by (simp add: calm_school_def)

lemma posts_known: "posts known_world = []"
  by (simp add: known_world_def)

lemma db_file_known: "db_file known_world = Stored catalog1"
  by (simp add: known_world_def)

theorem dispatch_fail_fast_witness:
  "length (detectChanges school_items catalog1) = 3
   \<and> posts (check school known_world) = take 2 (map (alert school) (detectChanges school_items catalog1))
   \<and> fst (check_try school known_world) = Inl NotificationError
   \<and> db_file (check school known_world) = Stored catalog1
   \<and> detectChanges school_items (catalog (db_file (check school known_world))) =
       detectChanges school_items catalog1"
proof -
  have len: "length (detectChanges school_items catalog1) = 3"
    by (simp add: actions_school)
  have ne: "\<not> Mapping.is_empty (catalog (db_file known_world))"
    by (simp add: catalog_known catalog1_not_empty)
  have acts: "detectChanges school_items catalog1 =
      detectChanges school_items (catalog (db_file known_world))"
    by (simp add: catalog_known)
  have le: "1 \<le> length (detectChanges school_items catalog1)"
    by (simp add: len)
  have ok: "\<forall>i<1. sink school (posts known_world @ take i (map (alert school) (detectChanges school_items catalog1)))
              (map (alert school) (detectChanges school_items catalog1) ! i)"
    by (simp add: sink_school posts_known)
  have bad: "1 < length (detectChanges school_items catalog1) \<longrightarrow>
        \<not> sink school (posts known_world @ take 1 (map (alert school) (detectChanges school_items catalog1)))
              (map (alert school) (detectChanges school_items catalog1) ! 1)"
    by (simp add: sink_school posts_known len)
  from dispatch_fail_fast [OF flags_school scrape_school ne acts le ok bad] len
  show ?thesis by (simp add: posts_known db_file_known numeral_2_eq_2 catalog_Stored)
qed

theorem bootstrap_silent_witness:
  "Mapping.is_empty (catalog (db_file fresh_world))
   \<and> posts (check school fresh_world) = []
   \<and> db_file (check school fresh_world) = Stored (updateDatabase school_items)
   \<and> Mapping.keys (catalog (db_file (check school fresh_world))) = {''1'', ''2'', ''3''}"
proof -
  have e: "Mapping.is_empty (catalog (db_file fresh_world))"
    by (simp add: fresh_world_def catalog_def readJSON_def readJSON_try_def)
  have d: "disk school (updateDatabase school_items) = None"
    by (simp add: school_def)
  have ids: "item_id ` set school_items = {''1'', ''2'', ''3''}"
    by (simp add: school_items_def video1_def untitled2_def quiz3_def)
  have ne: "school_items \<noteq> []"
    by (simp add: school_items_def)
  have p: "posts fresh_world = []"
    by (simp add: fresh_world_def)
  from bootstrap_silent [OF e, of school school_items] flags_school scrape_school d ids ne p
  have "posts (check school fresh_world) = []
        \<and> db_file (check school fresh_world) = Stored (updateDatabase school_items)
        \<and> Mapping.keys (catalog (db_file (check school fresh_world))) = {''1'', ''2'', ''3''}"
    by (simp add: catalog_Stored keys_updateDatabase [OF scrapeContent_digit_ids [OF scrape_school]])
  with e show ?thesis by blast
qed

theorem commit_after_dispatch_witness:
  "detectChanges school_items (catalog (db_file known_world)) \<noteq> []
   \<and> db_file (check calm_school known_world) = Stored (updateDatabase school_items)
   \<and> detectChanges [text1] (catalog (db_file known_world)) = []
   \<and> check renamed_school known_world = known_world"
proof -
  have ne: "\<not> Mapping.is_empty (catalog (db_file known_world))"
    by (simp add: catalog_known catalog1_not_empty)
  have a: "detectChanges school_items (catalog (db_file known_world)) \<noteq> []"
    by (simp add: catalog_known actions_school)
  have d: "disk calm_school (updateDatabase school_items) = None"
    by (simp add: calm_school_def school_def)
  from commit_after_dispatch [OF flags_calm scrape_calm ne refl] a d
  have 1: "db_file (check calm_school known_world) = Stored (updateDatabase school_items)"
    by (simp add: sink_calm)
  have b: "detectChanges [text1] (catalog (db_file known_world)) = []"
    by (simp add: catalog_known actions_renamed)
  from commit_after_dispatch [OF flags_renamed scrape_renamed ne refl] b
  have 2: "check renamed_school known_world = known_world"
    by simp
  from a 1 b 2 show ?thesis by simp
qed

text \<open>
  Claim C5, as stated, fails: item 1 is known as a text titled A and the page lists it as
  a text titled B. The cycle is not a first run, no event is detected, so dispatch
  succeeds with nothing to send; the database is left as the earlier snapshot and is
  not the projection of the current item list.
\<close>

theorem commit_without_events_counterexample:
  "launch_ok renamed_school \<and> auth_ok renamed_school
   \<and> scrapeContent renamed_school = Inr [text1]
   \<and> \<not> Mapping.is_empty (catalog (db_file known_world))
   \<and> processActions renamed_school (detectChanges [text1] (catalog (db_file known_world)))
        (posts known_world) = (Inr (), posts known_world)
   \<and> fst (check_try renamed_school known_world) = Inr ()
   \<and> Mapping.lookup (catalog (db_file (check renamed_school known_world))) ''1'' =
        Some \<lparr>stored_title = ''A'', stored_type = TEXT\<rparr>
   \<and> Mapping.lookup (updateDatabase [text1]) ''1'' = Some \<lparr>stored_title = ''B'', stored_type = TEXT\<rparr>
   \<and> catalog (db_file (check renamed_school known_world)) \<noteq> updateDatabase [text1]"
proof -
  have ne: "\<not> Mapping.is_empty (catalog (db_file known_world))"
    by (simp add: catalog_known catalog1_not_empty)
  have b: "detectChanges [text1] (catalog (db_file known_world)) = []"
    by (simp add: catalog_known actions_renamed)
  have t: "check_try renamed_school known_world = (Inr (), known_world)"
    using check_try_unfold [OF flags_renamed scrape_renamed, of known_world] b by simp
  have l1: "Mapping.lookup (catalog (db_file (check renamed_school known_world))) ''1'' =
        Some \<lparr>stored_title = ''A'', stored_type = TEXT\<rparr>"
    by (simp add: check_def t catalog_known lookup_catalog1)
  have l2: "Mapping.lookup (updateDatabase [text1]) ''1'' = Some \<lparr>stored_title = ''B'', stored_type = TEXT\<rparr>"
    by (simp add: updateDatabase_def set_property_def text1_def project_def)
  have "catalog (db_file (check renamed_school known_world)) \<noteq> updateDatabase [text1]"
  proof
    assume "catalog (db_file (check renamed_school known_world)) = updateDatabase [text1]"
    with l1 l2 show False by simp
  qed
  with ne b t l1 l2 flags_renamed scrape_renamed show ?thesis by simp
qed

theorem storage_errors_witness:
  "disk full_disk_school (updateDatabase school_items) = Some Unparseable
   \<and> fst (check_try full_disk_school known_world) = Inl WriteError
   \<and> db_file (check full_disk_school known_world) = Unparseable
   \<and> readJSON (db_file (check full_disk_school known_world)) = Inr Mapping.empty"
proof -
  have d: "disk full_disk_school (updateDatabase school_items) = Some Unparseable"
    by (simp add: full_disk_school_def)
  have a: "detectChanges school_items (catalog (db_file known_world)) \<noteq> []"
    by (simp add: catalog_known actions_school)
  have s: "sink full_disk_school ps em" for ps em
    by (simp add: full_disk_school_def calm_school_def)
  have "processActions full_disk_school (detectChanges school_items (catalog (db_file known_world)))
          (posts known_world) =
        (if length (detectChanges school_items (catalog (db_file known_world)))
              < length (detectChanges school_items (catalog (db_file known_world)))
         then Inl NotificationError else Inr (),
         posts known_world @ take (Suc (length (detectChanges school_items (catalog (db_file known_world)))))
           (map (alert full_disk_school) (detectChanges school_items (catalog (db_file known_world)))))"
    by (intro processActions_run) (simp_all add: s)
  then have p: "fst (processActions full_disk_school
          (detectChanges school_items (catalog (db_file known_world))) (posts known_world)) = Inr ()"
    by simp
  from storage_errors [where e = full_disk_school and its = school_items and w = known_world]
       flags_full_disk scrape_full_disk a p d
  have 1: "fst (check_try full_disk_school known_world) = Inl WriteError
           \<and> db_file (check full_disk_school known_world) = Unparseable"
    by blast
  from storage_errors [where e = full_disk_school and its = school_items and w = known_world]
  have "readJSON Unparseable = Inr Mapping.empty" by blast
  with 1 d show ?thesis by simp
qed

end
